theory Spec2Isabelle
  imports Main
begin

section \<open>JSON values as the handlers see them\<close>

text \<open>
  Everything the server stores or receives is a JSON value. An object is kept as the list
  of its fields in insertion order; a field is looked up with \<open>map_of\<close>. (JavaScript
  lists fields whose names are array indices before the others; nothing below depends on
  the order of fields with such names.) Numbers are the integers: the handlers only ever
  produce one number, the length of an array. Strings are ASCII text, except for the fixed
  message of a notification, which is kept as the bytes of its UTF-8 encoding.
  The JavaScript value \<open>undefined\<close> is not a JSON value: a property read that yields
  \<open>undefined\<close> is \<open>None\<close> of type \<open>json option\<close>.
\<close>

datatype json =
    JNull
  | JBool bool
  | JNum int
  | JStr string
  | JArr "json list"
  | JObj "(string \<times> json) list"

type_synonym obj = "(string \<times> json) list"

datatype js_error = InvalidCollection | IOFailure | SyntaxError | TypeError

text \<open>
  A response is \<open>res.status(n).json(v)\<close>. \<open>Caught e\<close> is the response of a handler's
  \<open>catch\<close> block, \<open>res.status(400).json({ error: err.message })\<close>; the message of an
  error raised by the runtime is not spelled out.
\<close>

datatype reply = Reply nat json | Caught js_error

fun status :: "reply \<Rightarrow> nat" where
  "status (Reply n v) = n"
| "status (Caught e) = 400"

definition err_body :: "string \<Rightarrow> json" where
  "err_body msg = JObj [(''error'', JStr msg)]"

subsection \<open>Property reads, truthiness, equality\<close>

text \<open>
  \<open>d.k\<close> for a value \<open>d\<close> that is not \<open>null\<close> and one of the property names the
  handlers read (\<open>id\<close>, \<open>username\<close>, \<open>password\<close>, \<open>following\<close>, \<open>followers\<close>,
  \<open>length\<close>): an object gives its field or \<open>undefined\<close>, arrays and strings have a
  \<open>length\<close>, every other read is \<open>undefined\<close>.
\<close>

fun prop_of :: "json \<Rightarrow> string \<Rightarrow> json option" where
  "prop_of (JObj kv) k = map_of kv k"
| "prop_of (JArr xs) k = (if k = ''length'' then Some (JNum (int (length xs))) else None)"
| "prop_of (JStr s) k = (if k = ''length'' then Some (JNum (int (length s))) else None)"
| "prop_of d k = None"

text \<open>
  \<open>d.k\<close> for any value: reading a property of \<open>undefined\<close> or \<open>null\<close> throws a
  TypeError.
\<close>

fun get_prop :: "json option \<Rightarrow> string \<Rightarrow> js_error + json option" where
  "get_prop None k = Inl TypeError"
| "get_prop (Some d) k = (if d = JNull then Inl TypeError else Inr (prop_of d k))"

fun truthy :: "json option \<Rightarrow> bool" where
  "truthy None = False"
| "truthy (Some JNull) = False"
| "truthy (Some (JBool b)) = b"
| "truthy (Some (JNum n)) = (n \<noteq> 0)"
| "truthy (Some (JStr s)) = (s \<noteq> [])"
| "truthy (Some (JArr xs)) = True"
| "truthy (Some (JObj kv)) = True"

text \<open>
  \<open>a == b\<close> between a value read from a file and a value of the request. Operands of one
  type are compared as they are; two objects or arrays are never the same reference, since
  one comes from the file and the other from the request. \<open>null\<close> and \<open>undefined\<close> equal
  each other and nothing else. For operands of different types JavaScript converts one of
  them first (a string to a number, an array to a string, ...): that comparison is the
  parameter \<open>coerce\<close>, about which nothing is assumed.
\<close>

fun loose_eq :: "(json \<Rightarrow> json \<Rightarrow> bool) \<Rightarrow> json option \<Rightarrow> json option \<Rightarrow> bool" where
  "loose_eq coerce None None = True"
| "loose_eq coerce None (Some b) = (b = JNull)"
| "loose_eq coerce (Some a) None = (a = JNull)"
| "loose_eq coerce (Some JNull) (Some b) = (b = JNull)"
| "loose_eq coerce (Some a) (Some JNull) = False"
| "loose_eq coerce (Some (JBool p)) (Some (JBool q)) = (p = q)"
| "loose_eq coerce (Some (JNum m)) (Some (JNum n)) = (m = n)"
| "loose_eq coerce (Some (JStr s)) (Some (JStr t)) = (s = t)"
| "loose_eq coerce (Some (JArr xs)) (Some (JArr ys)) = False"
| "loose_eq coerce (Some (JArr xs)) (Some (JObj kv)) = False"
| "loose_eq coerce (Some (JObj kv)) (Some (JArr ys)) = False"
| "loose_eq coerce (Some (JObj kv)) (Some (JObj kw)) = False"
| "loose_eq coerce (Some a) (Some b) = coerce a b"

text \<open>
  \<open>a === b\<close>, also the comparison of \<open>Array.prototype.includes\<close>, between an element of
  a stored array and a value of the request: primitives by value, objects and arrays by
  reference, hence never equal here.
\<close>

fun strict_eq :: "json \<Rightarrow> json option \<Rightarrow> bool" where
  "strict_eq a None = False"
| "strict_eq (JArr xs) (Some b) = False"
| "strict_eq (JObj kv) (Some b) = False"
| "strict_eq a (Some b) = (a = b)"

subsection \<open>Building objects\<close>

text \<open>
  \<open>o.k = v\<close> and a field of an object literal: an existing field keeps its place and
  takes the new value, a new field goes to the end.
\<close>

fun set_field :: "string \<Rightarrow> json \<Rightarrow> obj \<Rightarrow> obj" where
  "set_field k v [] = [(k, v)]"
| "set_field k v ((k', v') # kv) =
     (if k' = k then (k, v) # kv else (k', v') # set_field k v kv)"

text \<open>\<open>{ ...target, ...src }\<close>: the fields of \<open>src\<close> are set on \<open>target\<close> one by one.\<close>

definition spread :: "obj \<Rightarrow> obj \<Rightarrow> obj" where
  "spread target src = foldl (\<lambda>acc (k, v). set_field k v acc) target src"

text \<open>
  \<open>d.k = v\<close> on an element of a stored array, as it reaches the file and the response:
  a field set to \<open>undefined\<close> is dropped by \<open>JSON.stringify\<close>; assigning to a number,
  string or boolean does nothing (the module is not in strict mode), and a named property
  put on an array is not serialised. \<open>null\<close> never gets here: reading its \<open>id\<close> has
  thrown before.
\<close>

fun assign :: "json \<Rightarrow> string \<Rightarrow> json option \<Rightarrow> json" where
  "assign (JObj kv) k (Some v) = JObj (set_field k v kv)"
| "assign (JObj kv) k None = JObj (filter (\<lambda>(k', v'). k' \<noteq> k) kv)"
| "assign d k v = d"

text \<open>The fields \<open>{ ...d }\<close> copies out of an element: those of an object.\<close>

fun fields_of :: "json \<Rightarrow> obj" where
  "fields_of (JObj kv) = kv"
| "fields_of d = []"

subsection \<open>Array methods\<close>

text \<open>
  \<open>push\<close>, \<open>find\<close>, \<open>findIndex\<close>, \<open>some\<close>, \<open>filter\<close> exist on arrays only: calling one on
  any other value (also \<open>undefined\<close>) throws a TypeError.
\<close>

fun as_array :: "json option \<Rightarrow> js_error + json list" where
  "as_array (Some (JArr xs)) = Inr xs"
| "as_array v = Inl TypeError"

text \<open>
  \<open>docs.findIndex(p)\<close>: the index of the first element satisfying \<open>p\<close>, \<open>None\<close> for -1.
  The elements are visited in order, so a predicate that throws on an element before the
  first match makes the whole call throw.
\<close>

fun findIndex :: "(json \<Rightarrow> js_error + bool) \<Rightarrow> json list \<Rightarrow> js_error + nat option" where
  "findIndex p [] = Inr None"
| "findIndex p (d # ds) =
     (case p d of
        Inl e \<Rightarrow> Inl e
      | Inr True \<Rightarrow> Inr (Some 0)
      | Inr False \<Rightarrow>
          (case findIndex p ds of
             Inl e \<Rightarrow> Inl e
           | Inr None \<Rightarrow> Inr None
           | Inr (Some i) \<Rightarrow> Inr (Some (Suc i))))"

text \<open>\<open>docs.find(p)\<close>: the first element satisfying \<open>p\<close>, \<open>None\<close> for \<open>undefined\<close>.\<close>

fun find_first :: "(json \<Rightarrow> js_error + bool) \<Rightarrow> json list \<Rightarrow> js_error + json option" where
  "find_first p [] = Inr None"
| "find_first p (d # ds) =
     (case p d of
        Inl e \<Rightarrow> Inl e
      | Inr True \<Rightarrow> Inr (Some d)
      | Inr False \<Rightarrow> find_first p ds)"

text \<open>The predicate \<open>d => d.k == x\<close>.\<close>

definition prop_eq :: "(json \<Rightarrow> json \<Rightarrow> bool) \<Rightarrow> string \<Rightarrow> json option \<Rightarrow> json \<Rightarrow> js_error + bool" where
  "prop_eq coerce k x d =
     (case get_prop (Some d) k of Inl e \<Rightarrow> Inl e | Inr v \<Rightarrow> Inr (loose_eq coerce v x))"

section \<open>The collection files\<close>

text \<open>
  A file of the data directory, as \<open>fs.readFile\<close> followed by \<open>JSON.parse\<close> sees it:
  missing (\<open>ENOENT\<close>), failing to be read for another reason, holding text that
  \<open>JSON.parse\<close> rejects (the empty text is one), or holding the text of a JSON value.
  \<open>JSON.stringify\<close> followed by \<open>JSON.parse\<close> gives back the value written.
\<close>

datatype stored = Absent | Unreadable | Garbled | Holds json

type_synonym disk = "string \<Rightarrow> stored"

definition allowed :: "string list" where
  "allowed = [''users'', ''ads'', ''posts'', ''notifications'', ''reports'']"

text \<open>The path is taken relative to the data directory.\<close>

definition getFilePath :: "string \<Rightarrow> js_error + string" where
  "getFilePath collection =
     (if collection \<in> set allowed then Inr (collection @ ''.json'') else Inl InvalidCollection)"

definition readCollection :: "disk \<Rightarrow> string \<Rightarrow> js_error + json" where
  "readCollection fs collection =
     (case getFilePath collection of
        Inl e \<Rightarrow> Inl e
      | Inr file \<Rightarrow>
          (case fs file of
             Absent \<Rightarrow> Inr (JArr [])
           | Unreadable \<Rightarrow> Inl IOFailure
           | Garbled \<Rightarrow> Inl SyntaxError
           | Holds v \<Rightarrow> Inr v))"

text \<open>
  \<open>fs.writeFile(file, text, 'utf-8')\<close> opens the file itself for writing, which creates
  or truncates it, and then writes the text into it. These are its two effects on the
  disk, in order; between them the file holds less than the text.
\<close>

definition writeFile_steps :: "string \<Rightarrow> json \<Rightarrow> (disk \<Rightarrow> disk) list" where
  "writeFile_steps file data = [\<lambda>fs. fs(file := Garbled), \<lambda>fs. fs(file := Holds data)]"

definition writeCollection_steps :: "string \<Rightarrow> json \<Rightarrow> js_error + (disk \<Rightarrow> disk) list" where
  "writeCollection_steps collection data =
     (case getFilePath collection of
        Inl e \<Rightarrow> Inl e
      | Inr file \<Rightarrow> Inr (writeFile_steps file data))"

text \<open>A write that stops after its first \<open>n\<close> effects; a completed write has had them all.\<close>

definition interrupted :: "nat \<Rightarrow> disk \<Rightarrow> string \<Rightarrow> json \<Rightarrow> js_error + disk" where
  "interrupted n fs collection data =
     (case writeCollection_steps collection data of
        Inl e \<Rightarrow> Inl e
      | Inr steps \<Rightarrow> Inr (foldl (\<lambda>s f. f s) fs (take n steps)))"

definition writeCollection :: "disk \<Rightarrow> string \<Rightarrow> json \<Rightarrow> js_error + disk" where
  "writeCollection fs collection data =
     (case writeCollection_steps collection data of
        Inl e \<Rightarrow> Inl e
      | Inr steps \<Rightarrow> Inr (foldl (\<lambda>s f. f s) fs steps))"

section \<open>Handlers as sequences of awaited I/O\<close>

text \<open>
  An \<open>async\<close> handler runs until its next \<open>await\<close>; the only awaited calls are
  \<open>readCollection\<close> and \<open>writeCollection\<close>. A handler is therefore a tree: an awaited read
  or write with the code that continues from its outcome, or the response sent.
\<close>

datatype proc =
    Finish reply
  | Read string "js_error + json \<Rightarrow> proc"
  | Write string json "js_error option \<Rightarrow> proc"

text \<open>One awaited call of a handler, performed on the disk.\<close>

fun step :: "proc \<Rightarrow> disk \<Rightarrow> proc \<times> disk" where
  "step (Finish r) fs = (Finish r, fs)"
| "step (Read c k) fs = (k (readCollection fs c), fs)"
| "step (Write c d k) fs =
     (case writeCollection fs c d of
        Inl e \<Rightarrow> (k (Some e), fs)
      | Inr fs' \<Rightarrow> (k None, fs'))"

text \<open>A handler run from start to response with no other request in between.\<close>

primrec run :: "proc \<Rightarrow> disk \<Rightarrow> reply \<times> disk" where
  "run (Finish r) = (\<lambda>fs. (r, fs))"
| "run (Read c k) = (\<lambda>fs. run (k (readCollection fs c)) fs)"
| "run (Write c d k) =
     (\<lambda>fs. case writeCollection fs c d of
        Inl e \<Rightarrow> run (k (Some e)) fs
      | Inr fs' \<Rightarrow> run (k None) fs')"

text \<open>The writes a handler completes, in the order it makes them.\<close>

primrec writes :: "proc \<Rightarrow> disk \<Rightarrow> (string \<times> json) list" where
  "writes (Finish r) = (\<lambda>fs. [])"
| "writes (Read c k) = (\<lambda>fs. writes (k (readCollection fs c)) fs)"
| "writes (Write c d k) =
     (\<lambda>fs. case writeCollection fs c d of
        Inl e \<Rightarrow> writes (k (Some e)) fs
      | Inr fs' \<Rightarrow> (c, d) # writes (k None) fs')"

text \<open>
  The disk when the server process stops after a handler has completed its first \<open>n\<close>
  writes, before it makes the next one.
\<close>

definition stopped_after :: "nat \<Rightarrow> proc \<Rightarrow> disk \<Rightarrow> disk" where
  "stopped_after n p fs =
     foldl (\<lambda>s (c, d). case writeCollection s c d of Inl e \<Rightarrow> s | Inr s' \<Rightarrow> s') fs
       (take n (writes p fs))"

section \<open>The handlers\<close>

text \<open>
  \<open>generateId()\<close> and \<open>new Date().toISOString()\<close> are inputs of a handler: \<open>gid\<close> and
  \<open>now\<close>. The route parameters \<open>collection\<close> and \<open>id\<close> (written \<open>id'\<close>) are strings,
  the request body is the field list of the JSON object that \<open>express.json()\<close> parsed.
\<close>

text \<open>\<open>v || d\<close>\<close>

fun or_else :: "json option \<Rightarrow> json \<Rightarrow> json" where
  "or_else None d = d"
| "or_else (Some v) d = (if truthy (Some v) then v else d)"

subsection \<open>GET /:collection/:id\<close>


subsection \<open>POST /:collection\<close>

text \<open>The object literal \<open>{ ...req.body, id: generateId(), createdAt: ... }\<close>.\<close>

definition new_document :: "obj \<Rightarrow> string \<Rightarrow> string \<Rightarrow> json" where
  "new_document body gid now =
     JObj (spread [] (body @ [(''id'', JStr gid), (''createdAt'', JStr now)]))"

definition post_collection :: "string \<Rightarrow> obj \<Rightarrow> string \<Rightarrow> string \<Rightarrow> proc" where
  "post_collection collection body gid now =
     Read collection (\<lambda>r. case r of
        Inl e \<Rightarrow> Finish (Caught e)
      | Inr docs \<Rightarrow>
          (let newDoc = new_document body gid now
           in case as_array (Some docs) of
                Inl e \<Rightarrow> Finish (Caught e)
              | Inr ds \<Rightarrow>
                  Write collection (JArr (ds @ [newDoc])) (\<lambda>w. case w of
                     Some e \<Rightarrow> Finish (Caught e)
                   | None \<Rightarrow> Finish (Reply 201 newDoc))))"

subsection \<open>PATCH /:collection/:id\<close>

text \<open>The message of a like notification, as the bytes of its UTF-8 text.\<close>

definition like_message :: "string \<Rightarrow> string" where
  "like_message collection =
     map char_of
       ([216, 170, 217, 133, 32, 216, 167, 217, 132, 216, 165, 216, 185, 216, 172, 216, 167,
         216, 168, 32, 216, 168, 217, 128, 32] @
        (if collection = ''posts''
         then [217, 133, 217, 134, 216, 180, 217, 136, 216, 177]
         else [216, 165, 216, 185, 217, 132, 216, 167, 217, 134 :: nat]))"

definition like_notification :: "string \<Rightarrow> string \<Rightarrow> obj \<Rightarrow> string \<Rightarrow> string \<Rightarrow> json" where
  "like_notification collection id' body gid now =
     JObj (spread []
       [(''id'', JStr gid),
        (''type'', JStr ''like''),
        (''collection'', JStr collection),
        (''targetId'', JStr id'),
        (''likerId'', or_else (map_of body ''likerId'') JNull),
        (''createdAt'', JStr now),
        (''message'', JStr (like_message collection))])"

text \<open>
  The branch for likes: the two assignments to the document, then the notifications are
  read, extended and written, and the documents are written last.
\<close>

definition like_update ::
  "string \<Rightarrow> string \<Rightarrow> obj \<Rightarrow> string \<Rightarrow> string \<Rightarrow> json list \<Rightarrow> nat \<Rightarrow> proc" where
  "like_update collection id' body gid now ds idx =
     (case get_prop (map_of body ''likers'') ''length'' of
        Inl e \<Rightarrow> Finish (Caught e)
      | Inr n \<Rightarrow>
          (let ds1 = ds[idx := assign (ds ! idx) ''likers'' (map_of body ''likers'')];
               ds2 = ds1[idx := assign (ds1 ! idx) ''likesCount'' n]
           in Read ''notifications'' (\<lambda>r. case r of
                Inl e \<Rightarrow> Finish (Caught e)
              | Inr notifications \<Rightarrow>
                  (case as_array (Some notifications) of
                     Inl e \<Rightarrow> Finish (Caught e)
                   | Inr ns \<Rightarrow>
                       Write ''notifications''
                         (JArr (ns @ [like_notification collection id' body gid now]))
                         (\<lambda>w. case w of
                            Some e \<Rightarrow> Finish (Caught e)
                          | None \<Rightarrow>
                              Write collection (JArr ds2) (\<lambda>w. case w of
                                 Some e \<Rightarrow> Finish (Caught e)
                               | None \<Rightarrow> Finish (Reply 200 (ds2 ! idx))))))))"

text \<open>The regular update: the body is merged over the document.\<close>

definition regular_update :: "string \<Rightarrow> obj \<Rightarrow> json list \<Rightarrow> nat \<Rightarrow> proc" where
  "regular_update collection body ds idx =
     (let ds' = ds[idx := JObj (spread (fields_of (ds ! idx)) body)]
      in Write collection (JArr ds') (\<lambda>w. case w of
           Some e \<Rightarrow> Finish (Caught e)
         | None \<Rightarrow> Finish (Reply 200 (ds' ! idx))))"

definition patch_doc ::
  "(json \<Rightarrow> json \<Rightarrow> bool) \<Rightarrow> string \<Rightarrow> string \<Rightarrow> obj \<Rightarrow> string \<Rightarrow> string \<Rightarrow> proc" where
  "patch_doc coerce collection id' body gid now =
     Read collection (\<lambda>r. case r of
        Inl e \<Rightarrow> Finish (Caught e)
      | Inr docs \<Rightarrow>
          (case as_array (Some docs) of
             Inl e \<Rightarrow> Finish (Caught e)
           | Inr ds \<Rightarrow>
               (case findIndex (prop_eq coerce ''id'' (Some (JStr id'))) ds of
                  Inl e \<Rightarrow> Finish (Caught e)
                | Inr None \<Rightarrow> Finish (Reply 404 (err_body ''Not found''))
                | Inr (Some idx) \<Rightarrow>
                    if (collection = ''posts'' \<or> collection = ''ads'')
                       \<and> truthy (map_of body ''likers'')
                    then like_update collection id' body gid now ds idx
                    else regular_update collection body ds idx)))"

subsection \<open>POST /users/toggle-follow\<close>

text \<open>
  The statements between the lookup of the two users and the write, on the array \<open>users\<close>:
  \<open>follower\<close> is \<open>users[i]\<close> and \<open>following\<close> is \<open>users[j]\<close>, which are one and the same
  object when \<open>i = j\<close>, so every statement reads and updates the array at its index.
  A \<open>following\<close> or \<open>followers\<close> that is not an array has no \<open>push\<close> and no \<open>filter\<close>:
  whichever branch is taken, a TypeError is thrown before anything is written.
\<close>

text \<open>An array element that is \<open>undefined\<close> is written by \<open>JSON.stringify\<close> as \<open>null\<close>.\<close>

fun serialised :: "json option \<Rightarrow> json" where
  "serialised None = JNull"
| "serialised (Some v) = v"

definition toggle_statements ::
  "json list \<Rightarrow> nat \<Rightarrow> nat \<Rightarrow> json option \<Rightarrow> json option \<Rightarrow> js_error + json list" where
  "toggle_statements users i j followerId followingId =
     (let us1 = users[i := assign (users ! i) ''following''
                   (Some (or_else (prop_of (users ! i) ''following'') (JArr [])))];
          us2 = us1[j := assign (us1 ! j) ''followers''
                   (Some (or_else (prop_of (us1 ! j) ''followers'') (JArr [])))]
      in case as_array (prop_of (us2 ! i) ''following'') of
           Inl e \<Rightarrow> Inl e
         | Inr fl \<Rightarrow>
             if \<not> list_ex (\<lambda>x. strict_eq x followingId) fl
             then
               (let us3 = us2[i := assign (us2 ! i) ''following''
                             (Some (JArr (fl @ [serialised followingId])))]
                in case as_array (prop_of (us3 ! j) ''followers'') of
                     Inl e \<Rightarrow> Inl e
                   | Inr fr \<Rightarrow>
                       Inr (us3[j := assign (us3 ! j) ''followers''
                             (Some (JArr (fr @ [serialised followerId])))]))
             else
               (let us3 = us2[i := assign (us2 ! i) ''following''
                             (Some (JArr (filter (\<lambda>x. \<not> strict_eq x followingId) fl)))]
                in case as_array (prop_of (us3 ! j) ''followers'') of
                     Inl e \<Rightarrow> Inl e
                   | Inr fr \<Rightarrow>
                       Inr (us3[j := assign (us3 ! j) ''followers''
                             (Some (JArr (filter (\<lambda>x. \<not> strict_eq x followerId) fr)))])))"

text \<open>
  A user element that is itself an array (such an element can only be selected by a request
  that gives no id) is an object too: in memory it takes the named properties \<open>following\<close>
  and \<open>followers\<close> like an object without fields, and \<open>JSON.stringify\<close> writes it, to the
  file and to the response, as the array it was, without them.
\<close>

fun in_memory :: "json \<Rightarrow> json" where
  "in_memory (JArr xs) = JObj []"
| "in_memory d = d"

fun written_as :: "json \<Rightarrow> json \<Rightarrow> json" where
  "written_as (JArr xs) d = JArr xs"
| "written_as orig d = d"

definition toggle ::
  "json list \<Rightarrow> nat \<Rightarrow> nat \<Rightarrow> json option \<Rightarrow> json option \<Rightarrow> js_error + json list" where
  "toggle users i j followerId followingId =
     (let mem1 = users[i := in_memory (users ! i)];
          mem2 = mem1[j := in_memory (mem1 ! j)]
      in case toggle_statements mem2 i j followerId followingId of
           Inl e \<Rightarrow> Inl e
         | Inr us \<Rightarrow>
             (let out1 = us[i := written_as (users ! i) (us ! i)]
              in Inr (out1[j := written_as (users ! j) (out1 ! j)])))"

definition toggle_follow :: "(json \<Rightarrow> json \<Rightarrow> bool) \<Rightarrow> obj \<Rightarrow> proc" where
  "toggle_follow coerce body =
     (let followerId = map_of body ''followerId''; followingId = map_of body ''followingId''
      in Read ''users'' (\<lambda>r. case r of
           Inl e \<Rightarrow> Finish (Caught e)
         | Inr users \<Rightarrow>
             (case as_array (Some users) of
                Inl e \<Rightarrow> Finish (Caught e)
              | Inr us \<Rightarrow>
                  (case findIndex (prop_eq coerce ''id'' followerId) us of
                     Inl e \<Rightarrow> Finish (Caught e)
                   | Inr followerIdx \<Rightarrow>
                       (case findIndex (prop_eq coerce ''id'' followingId) us of
                          Inl e \<Rightarrow> Finish (Caught e)
                        | Inr followingIdx \<Rightarrow>
                            (case (followerIdx, followingIdx) of
                               (Some i, Some j) \<Rightarrow>
                                 (case toggle us i j followerId followingId of
                                    Inl e \<Rightarrow> Finish (Caught e)
                                  | Inr us' \<Rightarrow>
                                      Write ''users'' (JArr us') (\<lambda>w. case w of
                                         Some e \<Rightarrow> Finish (Caught e)
                                       | None \<Rightarrow>
                                           Finish (Reply 200
                                             (JObj [(''follower'', us' ! i),
                                                    (''following'', us' ! j)]))))
                             | _ \<Rightarrow> Finish (Reply 404 (err_body ''User not found''))))))))"

subsection \<open>POST /signup, POST /login, POST /reports\<close>

text \<open>\<open>users.some(p)\<close>\<close>

definition some_elem :: "(json \<Rightarrow> js_error + bool) \<Rightarrow> json list \<Rightarrow> js_error + bool" where
  "some_elem p ds =
     (case findIndex p ds of
        Inl e \<Rightarrow> Inl e
      | Inr None \<Rightarrow> Inr False
      | Inr (Some i) \<Rightarrow> Inr True)"

definition signup :: "(json \<Rightarrow> json \<Rightarrow> bool) \<Rightarrow> obj \<Rightarrow> string \<Rightarrow> string \<Rightarrow> proc" where
  "signup coerce body gid now =
     (let rest = filter (\<lambda>(k, v). k \<noteq> ''username'' \<and> k \<noteq> ''password'') body
      in case (map_of body ''username'', map_of body ''password'') of
           (Some username, Some password) \<Rightarrow>
             if \<not> truthy (Some username) \<or> \<not> truthy (Some password)
             then Finish (Reply 400 (err_body ''Missing username or password''))
             else
               Read ''users'' (\<lambda>r. case r of
                  Inl e \<Rightarrow> Finish (Caught e)
                | Inr users \<Rightarrow>
                    (case as_array (Some users) of
                       Inl e \<Rightarrow> Finish (Caught e)
                     | Inr us \<Rightarrow>
                         (case some_elem (prop_eq coerce ''username'' (Some username)) us of
                            Inl e \<Rightarrow> Finish (Caught e)
                          | Inr True \<Rightarrow> Finish (Reply 400 (err_body ''Username already exists''))
                          | Inr False \<Rightarrow>
                              (let user = JObj (spread []
                                     (rest @
                                      [(''username'', username),
                                       (''password'', password),
                                       (''id'', JStr gid),
                                       (''createdAt'', JStr now),
                                       (''approvalStatus'', JStr ''pending''),
                                       (''isBlocked'', JBool False),
                                       (''followers'', JArr []),
                                       (''following'', JArr [])]))
                               in Write ''users'' (JArr (us @ [user])) (\<lambda>w. case w of
                                    Some e \<Rightarrow> Finish (Caught e)
                                  | None \<Rightarrow> Finish (Reply 201 user))))))
         | _ \<Rightarrow> Finish (Reply 400 (err_body ''Missing username or password'')))"

text \<open>The predicate \<open>u => u.username == username && u.password == password\<close>.\<close>

definition credentials_match ::
  "(json \<Rightarrow> json \<Rightarrow> bool) \<Rightarrow> json option \<Rightarrow> json option \<Rightarrow> json \<Rightarrow> js_error + bool" where
  "credentials_match coerce username password u =
     (case prop_eq coerce ''username'' username u of
        Inl e \<Rightarrow> Inl e
      | Inr False \<Rightarrow> Inr False
      | Inr True \<Rightarrow> prop_eq coerce ''password'' password u)"

definition login :: "(json \<Rightarrow> json \<Rightarrow> bool) \<Rightarrow> obj \<Rightarrow> proc" where
  "login coerce body =
     Read ''users'' (\<lambda>r. case r of
        Inl e \<Rightarrow> Finish (Caught e)
      | Inr users \<Rightarrow>
          (case as_array (Some users) of
             Inl e \<Rightarrow> Finish (Caught e)
           | Inr us \<Rightarrow>
               (case find_first
                       (credentials_match coerce (map_of body ''username'')
                          (map_of body ''password'')) us of
                  Inl e \<Rightarrow> Finish (Caught e)
                | Inr None \<Rightarrow> Finish (Reply 401 (err_body ''Invalid credentials''))
                | Inr (Some user) \<Rightarrow>
                    if \<not> truthy (Some user)
                    then Finish (Reply 401 (err_body ''Invalid credentials''))
                    else Finish (Reply 200 user))))"

definition submit_report :: "obj \<Rightarrow> string \<Rightarrow> string \<Rightarrow> proc" where
  "submit_report body gid now =
     Read ''reports'' (\<lambda>r. case r of
        Inl e \<Rightarrow> Finish (Caught e)
      | Inr reports \<Rightarrow>
          (let report = JObj (spread []
                 (body @ [(''id'', JStr gid), (''createdAt'', JStr now), (''status'', JStr ''new'')]))
           in case as_array (Some reports) of
                Inl e \<Rightarrow> Finish (Caught e)
              | Inr rs \<Rightarrow>
                  Write ''reports'' (JArr (rs @ [report])) (\<lambda>w. case w of
                     Some e \<Rightarrow> Finish (Caught e)
                   | None \<Rightarrow> Finish (Reply 201 report))))"

section \<open>Routing of POST requests\<close>

text \<open>
  Express tries the routes of a method in the order in which the program registered them
  and runs the handler of the first one whose path matches; none of the handlers passes the
  request on. A path is the list of its segments; a segment of a route is a literal or a
  named parameter, which matches any one segment. Literal segments are compared as spelled.
\<close>

datatype segment = Literal string | Param string

fun match_path :: "segment list \<Rightarrow> string list \<Rightarrow> (string \<times> string) list option" where
  "match_path [] [] = Some []"
| "match_path (Literal s # ps) (x # xs) = (if s = x then match_path ps xs else None)"
| "match_path (Param name # ps) (x # xs) =
     (case match_path ps xs of None \<Rightarrow> None | Some params \<Rightarrow> Some ((name, x) # params))"
| "match_path ps xs = None"

datatype post_handler = PostCollection | ToggleFollow | Signup | Login | SubmitReport

text \<open>The five \<open>app.post\<close> calls of the program, from top to bottom.\<close>

definition post_routes :: "(segment list \<times> post_handler) list" where
  "post_routes =
     [([Param ''collection''], PostCollection),
      ([Literal ''users'', Literal ''toggle-follow''], ToggleFollow),
      ([Literal ''signup''], Signup),
      ([Literal ''login''], Login),
      ([Literal ''reports''], SubmitReport)]"

fun route :: "(segment list \<times> 'h) list \<Rightarrow> string list \<Rightarrow> ('h \<times> (string \<times> string) list) option" where
  "route [] path = None"
| "route ((pattern, h) # rs) path =
     (case match_path pattern path of
        Some params \<Rightarrow> Some (h, params)
      | None \<Rightarrow> route rs path)"

text \<open>
  The handler a POST request runs, \<open>None\<close> when no route of the program matches. A route
  parameter that is missing would be \<open>undefined\<close>, which is not an allowed collection.
\<close>

definition handle_post ::
  "(json \<Rightarrow> json \<Rightarrow> bool) \<Rightarrow> string list \<Rightarrow> obj \<Rightarrow> string \<Rightarrow> string \<Rightarrow> proc option" where
  "handle_post coerce path body gid now =
     (case route post_routes path of
        None \<Rightarrow> None
      | Some (PostCollection, params) \<Rightarrow>
          (case map_of params ''collection'' of
             Some collection \<Rightarrow> Some (post_collection collection body gid now)
           | None \<Rightarrow> Some (Finish (Caught InvalidCollection)))
      | Some (ToggleFollow, params) \<Rightarrow> Some (toggle_follow coerce body)
      | Some (Signup, params) \<Rightarrow> Some (signup coerce body gid now)
      | Some (Login, params) \<Rightarrow> Some (login coerce body)
      | Some (SubmitReport, params) \<Rightarrow> Some (submit_report body gid now))"

section \<open>Requests in flight together\<close>

text \<open>
  Node runs one handler at a time, but only up to its next \<open>await\<close>: while a handler
  waits for its read or write, another request's handler may run. The requests in flight
  are a list of handlers; a schedule names, one after the other, the handler whose awaited
  call is performed next.
\<close>

fun sched_step :: "nat \<Rightarrow> disk \<times> proc list \<Rightarrow> disk \<times> proc list" where
  "sched_step i (fs, ps) =
     (if i < length ps
      then (case step (ps ! i) fs of (p', fs') \<Rightarrow> (fs', ps[i := p']))
      else (fs, ps))"

definition interleave :: "nat list \<Rightarrow> disk \<times> proc list \<Rightarrow> disk \<times> proc list" where
  "interleave schedule s = foldl (\<lambda>s i. sched_step i s) s schedule"

text \<open>The schedule that serves \<open>n\<close> requests one after the other: two awaited calls each.\<close>

definition one_by_one :: "nat \<Rightarrow> nat list" where
  "one_by_one n = concat (map (\<lambda>i. [i, i]) [0..<n])"

text \<open>An insert request: its body, and the id and the time it is given.\<close>

fun insert_request :: "string \<Rightarrow> obj \<times> string \<times> string \<Rightarrow> proc" where
  "insert_request collection (body, gid, now) = post_collection collection body gid now"

text \<open>The document an insert request stores.\<close>

fun stored_document :: "obj \<times> string \<times> string \<Rightarrow> json" where
  "stored_document (body, gid, now) = new_document body gid now"

section \<open>Notions of the specification and example data\<close>

text \<open>
  The data model's stored form of a collection: an array whose elements are documents,
  that is, objects.
\<close>

fun is_document :: "json \<Rightarrow> bool" where
  "is_document (JObj kv) = True"
| "is_document d = False"

fun document_array :: "json \<Rightarrow> bool" where
  "document_array (JArr ds) = list_all is_document ds"
| "document_array v = False"

text \<open>A data directory without files, and a runtime in which no coercing comparison holds.\<close>

definition no_files :: disk where
  "no_files = (\<lambda>file. Absent)"

definition no_coercion :: "json \<Rightarrow> json \<Rightarrow> bool" where
  "no_coercion a b = False"


text \<open>A post without likes, and a request that likes it.\<close>

definition like_disk :: disk where
  "like_disk = no_files(''posts.json'' :=
     Holds (JArr [JObj [(''id'', JStr ''p1''), (''title'', JStr ''hi''), (''likers'', JArr []),
                        (''likesCount'', JNum 0)]]))"

definition like_body :: obj where
  "like_body = [(''likers'', JArr [JStr ''u1'', JStr ''u2'', JStr ''u3'']),
                (''likerId'', JStr ''u3''), (''title'', JStr ''changed'')]"

text \<open>The users before and after a second user is added.\<close>

definition users_before :: json where
  "users_before = JArr [JObj [(''id'', JStr ''u1''), (''username'', JStr ''a'')]]"

definition users_after :: json where
  "users_after = JArr [JObj [(''id'', JStr ''u1''), (''username'', JStr ''a'')],
                       JObj [(''id'', JStr ''u2''), (''username'', JStr ''b'')]]"

text \<open>Two insert requests into \<open>posts\<close>.\<close>

definition two_inserts :: "(obj \<times> string \<times> string) list" where
  "two_inserts = [([(''n'', JNum 1)], ''g1'', ''t1''), ([(''n'', JNum 2)], ''g2'', ''t2'')]"











text \<open>A like request whose body also names \<open>likesCount\<close> and \<open>title\<close>.\<close>

definition like_body_count :: obj where
  "like_body_count = [(''likers'', JArr [JStr ''u1'']), (''likesCount'', JNum 99),
                      (''title'', JStr ''changed'')]"

section \<open>Basic facts\<close>

lemma getFilePath_allowed: "c \<in> set allowed \<Longrightarrow> getFilePath c = Inr (c @ ''.json'')"
  by (simp add: getFilePath_def)

lemma readCollection_Inr: "readCollection fs c = Inr v \<Longrightarrow> getFilePath c = Inr (c @ ''.json'')"
  by (auto simp: readCollection_def getFilePath_def split: if_splits)

lemma writeCollection_eq:
  "writeCollection fs c d =
     (case getFilePath c of Inl e \<Rightarrow> Inl e | Inr file \<Rightarrow> Inr (fs(file := Holds d)))"
  by (auto simp: writeCollection_def writeCollection_steps_def writeFile_steps_def
      split: sum.splits)

lemma map_of_set_field: "map_of (set_field k v kv) = (map_of kv)(k \<mapsto> v)"
  by (induction kv) (auto simp: fun_eq_iff)

lemma map_of_spread: "map_of (spread t s) = map_of t ++ map_of (rev s)"
  unfolding spread_def
proof (induction s arbitrary: t)
  case Nil
  then show ?case by simp
next
  case (Cons a s)
  obtain k v where a: "a = (k, v)" by (cases a)
  show ?case
    by (simp add: a Cons.IH map_of_set_field fun_eq_iff map_add_def split: option.splits)
qed



lemma findIndex_Some:
  "findIndex p ds = Inr (Some i) \<Longrightarrow>
     i < length ds \<and> p (ds ! i) = Inr True \<and> (\<forall>j<i. p (ds ! j) = Inr False)"
proof (induction ds arbitrary: i)
  case Nil
  then show ?case by simp
next
  case (Cons d ds)
  then show ?case
    by (auto split: sum.splits bool.splits option.splits simp: nth_Cons less_Suc_eq_0_disj)
qed

lemma findIndex_None:
  "(findIndex p ds = Inr None) = (\<forall>d\<in>set ds. p d = Inr False)"
  by (induction ds) (auto split: sum.splits bool.splits option.splits)



text \<open>Only an object can have an \<open>id\<close> that equals a string.\<close>

lemma prop_eq_str_obj:
  "prop_eq coerce ''id'' (Some (JStr s)) d = Inr True \<Longrightarrow> \<exists>kv. d = JObj kv"
  by (cases d) (auto simp: prop_eq_def split: if_splits)

lemma found_is_object:
  assumes "findIndex (prop_eq coerce ''id'' (Some (JStr i))) ds = Inr (Some idx)"
  shows "idx < length ds \<and> (\<exists>kv. ds ! idx = JObj kv)"
proof -
  from findIndex_Some [OF assms]
  have lt: "idx < length ds" and p: "prop_eq coerce ''id'' (Some (JStr i)) (ds ! idx) = Inr True"
    by simp_all
  from prop_eq_str_obj [OF p] lt show ?thesis by simp
qed

lemmas eval_defs = readCollection_def getFilePath_def allowed_def prop_eq_def spread_def
  writeCollection_eq no_files_def err_body_def

section \<open>Reading a collection\<close>

text \<open>
  C8 (as amended). For a valid collection name, \<open>readCollection\<close> returns the empty array
  when the file does not exist, fails with the parser's SyntaxError when the file's text is
  not valid JSON, fails with the I/O error when the file cannot be read, and returns any
  other stored JSON value as it is, without checking that it is an array of documents.
\<close>

theorem readCollection_outcomes:
  "collection \<in> set allowed \<Longrightarrow>
     readCollection fs collection =
       (case fs (collection @ ''.json'') of
          Absent \<Rightarrow> Inr (JArr [])
        | Unreadable \<Rightarrow> Inl IOFailure
        | Garbled \<Rightarrow> Inl SyntaxError
        | Holds v \<Rightarrow> Inr v)"
  by (simp add: readCollection_def getFilePath_allowed)

theorem readCollection_outcomes_witness:
  "''users'' \<in> set allowed \<and> readCollection no_files ''users'' = Inr (JArr [])"
  using readCollection_outcomes [of "''users''" no_files]
  by (simp add: allowed_def no_files_def)

text \<open>
  C8 as stated fails: the text \<open>{}\<close> is valid JSON but not an array of documents, and
  reading it is not an error.
\<close>

theorem readCollection_non_array:
  "\<not> document_array (JObj []) \<and>
   readCollection (no_files(''users.json'' := Holds (JObj []))) ''users'' = Inr (JObj [])"
  by (simp add: readCollection_def getFilePath_def allowed_def)

section \<open>PATCH: the regular update\<close>





section \<open>POST followed by GET\<close>





section \<open>PATCH: the like update\<close>

lemma map_of_drop_field:
  "map_of (filter (\<lambda>(k', v'). k' \<noteq> k) kv) x = (if x = k then None else map_of kv x)"
  by (induction kv) auto

lemma prop_of_assign_other:
  "x \<noteq> k \<Longrightarrow> prop_of (assign (JObj kv) k v) x = prop_of (JObj kv) x"
  by (cases v) (simp_all add: map_of_set_field map_of_drop_field)

lemma prop_of_assign_same:
  "prop_of (assign (JObj kv) k v) k = v"
  by (cases v) (simp_all add: map_of_set_field map_of_drop_field)

lemma assign_obj: "\<exists>kv'. assign (JObj kv) k v = JObj kv'"
  by (cases v) simp_all

text \<open>The document a like update stores at the index of the target.\<close>

lemma liked_doc:
  assumes "d = JObj kv"
  shows "prop_of (assign (assign d ''likers'' l) ''likesCount'' n) ''likers'' = l"
    and "prop_of (assign (assign d ''likers'' l) ''likesCount'' n) ''likesCount'' = n"
    and "k \<noteq> ''likers'' \<Longrightarrow> k \<noteq> ''likesCount'' \<Longrightarrow>
           prop_of (assign (assign d ''likers'' l) ''likesCount'' n) k = prop_of d k"
proof -
  from assign_obj obtain kv1 where kv1: "assign (JObj kv) ''likers'' l = JObj kv1" by blast
  have l: "prop_of (JObj kv1) ''likers'' = l"
    unfolding kv1 [symmetric] by (rule prop_of_assign_same)
  have o: "prop_of (JObj kv1) x = prop_of (JObj kv) x" if "x \<noteq> ''likers''" for x
    unfolding kv1 [symmetric] using that by (rule prop_of_assign_other)
  have "prop_of (assign (JObj kv1) ''likesCount'' n) ''likers'' = prop_of (JObj kv1) ''likers''"
    by (rule prop_of_assign_other) simp
  with l show "prop_of (assign (assign d ''likers'' l) ''likesCount'' n) ''likers'' = l"
    unfolding assms kv1 by simp
  show "prop_of (assign (assign d ''likers'' l) ''likesCount'' n) ''likesCount'' = n"
    unfolding assms kv1 by (rule prop_of_assign_same)
  show "prop_of (assign (assign d ''likers'' l) ''likesCount'' n) k = prop_of d k"
    if a: "k \<noteq> ''likers''" and b: "k \<noteq> ''likesCount''"
  proof -
    have "prop_of (assign (JObj kv1) ''likesCount'' n) k = prop_of (JObj kv1) k"
      using b by (rule prop_of_assign_other)
    also have "\<dots> = prop_of (JObj kv) k" using a by (rule o)
    finally show ?thesis unfolding assms kv1 .
  qed
qed

lemma run_like_update:
  assumes c: "collection = ''posts'' \<or> collection = ''ads''"
    and lt: "idx < length ds"
    and len: "get_prop (map_of body ''likers'') ''length'' = Inr n"
    and ns: "readCollection fs ''notifications'' = Inr (JArr ns)"
  shows "run (like_update collection id' body gid now ds idx) fs =
     (Reply 200 (assign (assign (ds ! idx) ''likers'' (map_of body ''likers'')) ''likesCount'' n),
      fs(''notifications.json'' := Holds (JArr (ns @ [like_notification collection id' body gid now])),
         collection @ ''.json'' := Holds (JArr
           (ds[idx := assign (assign (ds ! idx) ''likers'' (map_of body ''likers'')) ''likesCount'' n]))))"
proof -
  have p: "getFilePath collection = Inr (collection @ ''.json'')"
    "getFilePath ''notifications'' = Inr ''notifications.json''"
    using c by (auto simp: getFilePath_def allowed_def)
  show ?thesis
    using lt len ns by (simp add: like_update_def Let_def p writeCollection_eq)
qed

lemma writes_like_update:
  assumes c: "collection = ''posts'' \<or> collection = ''ads''"
    and lt: "idx < length ds"
    and len: "get_prop (map_of body ''likers'') ''length'' = Inr n"
    and ns: "readCollection fs ''notifications'' = Inr (JArr ns)"
  shows "writes (like_update collection id' body gid now ds idx) fs =
     [(''notifications'', JArr (ns @ [like_notification collection id' body gid now])),
      (collection, JArr
           (ds[idx := assign (assign (ds ! idx) ''likers'' (map_of body ''likers'')) ''likesCount'' n]))]"
proof -
  have p: "getFilePath collection = Inr (collection @ ''.json'')"
    "getFilePath ''notifications'' = Inr ''notifications.json''"
    using c by (auto simp: getFilePath_def allowed_def)
  show ?thesis
    using lt len ns by (simp add: like_update_def Let_def p writeCollection_eq)
qed

lemma patch_is_like_update:
  assumes "collection = ''posts'' \<or> collection = ''ads''"
    and "truthy (map_of body ''likers'')"
    and "readCollection fs collection = Inr (JArr ds)"
    and "findIndex (prop_eq coerce ''id'' (Some (JStr id'))) ds = Inr (Some idx)"
  shows "run (patch_doc coerce collection id' body gid now) fs
           = run (like_update collection id' body gid now ds idx) fs"
    and "writes (patch_doc coerce collection id' body gid now) fs
           = writes (like_update collection id' body gid now ds idx) fs"
  using assms by (simp_all add: patch_doc_def)

lemma truthy_length: "truthy l \<Longrightarrow> \<exists>n. get_prop l ''length'' = Inr n"
  by (cases l rule: truthy.cases) simp_all


lemma run_writes: "snd (run p fs) =
    foldl (\<lambda>s (c, d). case writeCollection s c d of Inl e \<Rightarrow> s | Inr s' \<Rightarrow> s') fs (writes p fs)"
proof (induction p arbitrary: fs)
  case (Finish r)
  show ?case by simp
next
  case (Read c k)
  show ?case by (simp add: Read.IH)
next
  case (Write c d k)
  show ?case
    by (cases "writeCollection fs c d") (simp_all add: Write.IH)
qed

lemma stopped_after_all: "stopped_after (length (writes p fs)) p fs = snd (run p fs)"
  by (simp add: stopped_after_def run_writes)





text \<open>
  C10. Let the like update fire: the collection is \<open>posts\<close> or \<open>ads\<close> and the body's
  \<open>likers\<close> is truthy; let the lookup find the requested id at index \<open>idx\<close> of the stored
  array \<open>ds\<close> and the notifications be readable as an array. Then the stored array changes
  at \<open>idx\<close> only, and the document there changes in its fields \<open>likers\<close> and \<open>likesCount\<close>
  only: \<open>likers\<close> is the body's, \<open>likesCount\<close> is the \<open>length\<close> of the body's \<open>likers\<close>
  (not what the body may say of \<open>likesCount\<close>), and every other field keeps its stored
  value, whatever the body says about it.
\<close>

theorem like_update_frame:
  assumes c: "collection = ''posts'' \<or> collection = ''ads''"
    and likers: "truthy (map_of body ''likers'')"
    and rd: "readCollection fs collection = Inr (JArr ds)"
    and found: "findIndex (prop_eq coerce ''id'' (Some (JStr id'))) ds = Inr (Some idx)"
    and ns: "readCollection fs ''notifications'' = Inr (JArr ns)"
  shows "\<exists>doc note.
      run (patch_doc coerce collection id' body gid now) fs
        = (Reply 200 doc,
           fs(''notifications.json'' := Holds (JArr (ns @ [note])),
              collection @ ''.json'' := Holds (JArr (ds[idx := doc]))))
      \<and> prop_of doc ''likers'' = map_of body ''likers''
      \<and> get_prop (map_of body ''likers'') ''length'' = Inr (prop_of doc ''likesCount'')
      \<and> (\<forall>k. k \<noteq> ''likers'' \<and> k \<noteq> ''likesCount'' \<longrightarrow> prop_of doc k = prop_of (ds ! idx) k)"
proof -
  from found_is_object [OF found] obtain kv where lt: "idx < length ds" and kv: "ds ! idx = JObj kv"
    by blast
  from truthy_length [OF likers] obtain n
    where len: "get_prop (map_of body ''likers'') ''length'' = Inr n" by blast
  let ?doc = "assign (assign (ds ! idx) ''likers'' (map_of body ''likers'')) ''likesCount'' n"
  let ?note = "like_notification collection id' body gid now"
  from patch_is_like_update(1) [OF c likers rd found]
  have r: "run (patch_doc coerce collection id' body gid now) fs
        = (Reply 200 ?doc,
           fs(''notifications.json'' := Holds (JArr (ns @ [?note])),
              collection @ ''.json'' := Holds (JArr (ds[idx := ?doc]))))"
    by (simp add: run_like_update [OF c lt len ns])
  have "prop_of ?doc ''likers'' = map_of body ''likers''"
    by (rule liked_doc(1) [OF kv])
  moreover have "prop_of ?doc ''likesCount'' = n"
    by (rule liked_doc(2) [OF kv])
  with len have "get_prop (map_of body ''likers'') ''length'' = Inr (prop_of ?doc ''likesCount'')"
    by simp
  moreover have "\<forall>k. k \<noteq> ''likers'' \<and> k \<noteq> ''likesCount'' \<longrightarrow> prop_of ?doc k = prop_of (ds ! idx) k"
    using liked_doc(3) [OF kv] by blast
  ultimately show ?thesis using r by blast
qed

text \<open>
  The body gives \<open>likesCount: 99\<close> and a new \<open>title\<close> along with one liker: the stored
  document has \<open>likesCount\<close> 1 and its old title.
\<close>

theorem like_update_frame_witness:
  "truthy (map_of like_body_count ''likers'')
   \<and> readCollection like_disk ''posts''
     = Inr (JArr [JObj [(''id'', JStr ''p1''), (''title'', JStr ''hi''), (''likers'', JArr []),
                        (''likesCount'', JNum 0)]])
   \<and> findIndex (prop_eq no_coercion ''id'' (Some (JStr ''p1'')))
        [JObj [(''id'', JStr ''p1''), (''title'', JStr ''hi''), (''likers'', JArr []),
               (''likesCount'', JNum 0)]] = Inr (Some 0)
   \<and> readCollection like_disk ''notifications'' = Inr (JArr [])
   \<and> map_of like_body_count ''title'' = Some (JStr ''changed'')
   \<and> map_of like_body_count ''likesCount'' = Some (JNum 99)
   \<and> get_prop (map_of like_body_count ''likers'') ''length'' = Inr (Some (JNum 1))
   \<and> fst (run (patch_doc no_coercion ''posts'' ''p1'' like_body_count ''n1'' ''t1'') like_disk)
       = Reply 200
           (JObj [(''id'', JStr ''p1''), (''title'', JStr ''hi''),
                  (''likers'', JArr [JStr ''u1'']), (''likesCount'', JNum 1)])
   \<and> readCollection
        (snd (run (patch_doc no_coercion ''posts'' ''p1'' like_body_count ''n1'' ''t1'') like_disk))
        ''posts''
       = Inr (JArr
               [JObj [(''id'', JStr ''p1''), (''title'', JStr ''hi''),
                      (''likers'', JArr [JStr ''u1'']), (''likesCount'', JNum 1)]])"
  using like_update_frame [of "''posts''" like_body_count like_disk
      "[JObj [(''id'', JStr ''p1''), (''title'', JStr ''hi''), (''likers'', JArr []),
              (''likesCount'', JNum 0)]]"
      no_coercion "''p1''" 0 "[]" "''n1''" "''t1''"]
  by (simp add: like_disk_def like_body_count_def patch_doc_def like_update_def
      like_notification_def eval_defs Let_def)

text \<open>
  C3 (as amended). In a like update that succeeds, the notifications are written first and
  the target collection second: if the process stops between the two writes, the new
  notification is stored and the target collection is as it was, the like not recorded.
\<close>

theorem like_update_write_order:
  assumes c: "collection = ''posts'' \<or> collection = ''ads''"
    and likers: "truthy (map_of body ''likers'')"
    and rd: "readCollection fs collection = Inr (JArr ds)"
    and found: "findIndex (prop_eq coerce ''id'' (Some (JStr id'))) ds = Inr (Some idx)"
    and ns: "readCollection fs ''notifications'' = Inr (JArr ns)"
  shows "map fst (writes (patch_doc coerce collection id' body gid now) fs)
           = [''notifications'', collection]
      \<and> readCollection (stopped_after (Suc 0) (patch_doc coerce collection id' body gid now) fs)
           ''notifications''
           = Inr (JArr (ns @ [like_notification collection id' body gid now]))
      \<and> readCollection (stopped_after (Suc 0) (patch_doc coerce collection id' body gid now) fs)
           collection
           = Inr (JArr ds)"
proof -
  from found_is_object [OF found] have lt: "idx < length ds" by blast
  from truthy_length [OF likers] obtain n
    where len: "get_prop (map_of body ''likers'') ''length'' = Inr n" by blast
  have p: "getFilePath collection = Inr (collection @ ''.json'')"
    "getFilePath ''notifications'' = Inr ''notifications.json''"
    using c by (auto simp: getFilePath_def allowed_def)
  have ne: "collection @ ''.json'' \<noteq> ''notifications.json''"
    using c by auto
  from patch_is_like_update(2) [OF c likers rd found]
  have w: "writes (patch_doc coerce collection id' body gid now) fs =
     [(''notifications'', JArr (ns @ [like_notification collection id' body gid now])),
      (collection, JArr
           (ds[idx := assign (assign (ds ! idx) ''likers'' (map_of body ''likers'')) ''likesCount'' n]))]"
    by (simp add: writes_like_update [OF c lt len ns])
  have s: "stopped_after (Suc 0) (patch_doc coerce collection id' body gid now) fs
      = fs(''notifications.json'' :=
             Holds (JArr (ns @ [like_notification collection id' body gid now])))"
    by (simp add: stopped_after_def w writeCollection_eq p)
  from rd ne show ?thesis
    by (simp add: w s readCollection_def p)
qed

theorem like_update_write_order_witness:
  "truthy (map_of like_body ''likers'')
   \<and> readCollection like_disk ''posts''
     = Inr (JArr [JObj [(''id'', JStr ''p1''), (''title'', JStr ''hi''), (''likers'', JArr []),
                        (''likesCount'', JNum 0)]])
   \<and> findIndex (prop_eq no_coercion ''id'' (Some (JStr ''p1'')))
        [JObj [(''id'', JStr ''p1''), (''title'', JStr ''hi''), (''likers'', JArr []),
               (''likesCount'', JNum 0)]] = Inr (Some 0)
   \<and> readCollection like_disk ''notifications'' = Inr (JArr [])
   \<and> map fst (writes (patch_doc no_coercion ''posts'' ''p1'' like_body ''n1'' ''t1'') like_disk)
       = [''notifications'', ''posts'']"
  using like_update_write_order [of "''posts''" like_body like_disk
      "[JObj [(''id'', JStr ''p1''), (''title'', JStr ''hi''), (''likers'', JArr []),
              (''likesCount'', JNum 0)]]"
      no_coercion "''p1''" 0 "[]" "''n1''" "''t1''"]
  by (simp add: like_disk_def like_body_def eval_defs)

text \<open>
  C3 as stated fails: when the process stops between the two writes of the like of post
  \<open>p1\<close>, the notification for \<open>p1\<close> is stored while the post still has no likers.
\<close>

theorem like_update_notification_first:
  "readCollection
     (stopped_after (Suc 0) (patch_doc no_coercion ''posts'' ''p1'' like_body ''n1'' ''t1'') like_disk)
     ''notifications''
     = Inr (JArr
         [JObj [(''id'', JStr ''n1''), (''type'', JStr ''like''),
                (''collection'', JStr ''posts''), (''targetId'', JStr ''p1''),
                (''likerId'', JStr ''u3''), (''createdAt'', JStr ''t1''),
                (''message'', JStr (like_message ''posts''))]])
   \<and> readCollection
     (stopped_after (Suc 0) (patch_doc no_coercion ''posts'' ''p1'' like_body ''n1'' ''t1'') like_disk)
     ''posts''
     = Inr (JArr [JObj [(''id'', JStr ''p1''), (''title'', JStr ''hi''), (''likers'', JArr []),
                        (''likesCount'', JNum 0)]])"
  by (simp add: stopped_after_def like_disk_def like_body_def patch_doc_def like_update_def
      like_notification_def eval_defs Let_def)

section \<open>Writing a collection\<close>

text \<open>
  C9 (as amended). For a valid collection name, \<open>writeCollection\<close> consists of the one
  \<open>fs.writeFile\<close> on the collection's own file: no temporary file is written and nothing
  is renamed. A write that completes leaves exactly the new data in the file, which the
  next read returns. A write that stops after the file has been opened leaves the file
  without its previous content and without the new one.
\<close>

theorem writeCollection_in_place:
  "collection \<in> set allowed \<Longrightarrow>
     writeCollection_steps collection data = Inr (writeFile_steps (collection @ ''.json'') data)
     \<and> interrupted (Suc 0) fs collection data = Inr (fs(collection @ ''.json'' := Garbled))
     \<and> writeCollection fs collection data = Inr (fs(collection @ ''.json'' := Holds data))
     \<and> readCollection (fs(collection @ ''.json'' := Holds data)) collection = Inr data"
  by (simp add: writeCollection_steps_def interrupted_def writeFile_steps_def
      writeCollection_def readCollection_def getFilePath_allowed)

theorem writeCollection_in_place_witness:
  "''users'' \<in> set allowed
   \<and> writeCollection (no_files(''users.json'' := Holds users_before)) ''users'' users_after
       = Inr (no_files(''users.json'' := Holds users_after))
   \<and> readCollection (no_files(''users.json'' := Holds users_after)) ''users'' = Inr users_after"
  using writeCollection_in_place [of "''users''" users_after "no_files(''users.json'' := Holds users_before)"]
  by (simp add: allowed_def)

text \<open>
  C9 as stated fails: a write of the users that is interrupted after its first effect has
  destroyed the users stored before, and a reader gets a parse error.
\<close>

theorem writeCollection_truncates:
  "readCollection (no_files(''users.json'' := Holds users_before)) ''users'' = Inr users_before
   \<and> interrupted (Suc 0) (no_files(''users.json'' := Holds users_before)) ''users'' users_after
       = Inr (no_files(''users.json'' := Garbled))
   \<and> readCollection (no_files(''users.json'' := Garbled)) ''users'' = Inl SyntaxError"
  by (simp add: interrupted_def writeCollection_steps_def writeFile_steps_def eval_defs)

section \<open>Signup\<close>

text \<open>
  C5 fails on the program. \<open>POST /signup\<close> never reaches the signup handler: the route
  \<open>/:collection\<close> is registered before \<open>/signup\<close> and matches it, so the request is
  handled as an insert into a collection named \<open>signup\<close>, which is not an allowed name.
  Whatever the body and the stored users, the response is 400 \<open>Invalid collection\<close> and
  nothing is stored.
\<close>

theorem signup_route_shadowed:
  "handle_post coerce [''signup''] body gid now = Some (post_collection ''signup'' body gid now)
   \<and> run (post_collection ''signup'' body gid now) fs = (Caught InvalidCollection, fs)
   \<and> status (fst (run (post_collection ''signup'' body gid now) fs)) = 400"
  by (simp add: handle_post_def post_routes_def post_collection_def readCollection_def
      getFilePath_def allowed_def)

text \<open>
  The handler registered for \<open>/signup\<close>, run on its own, does what C5 describes: 201 with a
  pending, unblocked user without followers for a new user name, 400 for a user name that
  is taken or for a missing user name or password.
\<close>

lemma signup_handler_created:
  assumes "map_of body ''username'' = Some (JStr u)" and "u \<noteq> []"
    and "map_of body ''password'' = Some (JStr p)" and "p \<noteq> []"
    and "readCollection fs ''users'' = Inr (JArr us)"
    and "\<forall>d\<in>set us. prop_eq coerce ''username'' (Some (JStr u)) d = Inr False"
  shows "\<exists>user. run (signup coerce body gid now) fs
            = (Reply 201 user, fs(''users.json'' := Holds (JArr (us @ [user]))))
        \<and> prop_of user ''approvalStatus'' = Some (JStr ''pending'')
        \<and> prop_of user ''isBlocked'' = Some (JBool False)
        \<and> prop_of user ''followers'' = Some (JArr [])
        \<and> prop_of user ''following'' = Some (JArr [])"
proof -
  from assms(6) have "findIndex (prop_eq coerce ''username'' (Some (JStr u))) us = Inr None"
    by (simp add: findIndex_None)
  then have "some_elem (prop_eq coerce ''username'' (Some (JStr u))) us = Inr False"
    by (simp add: some_elem_def)
  moreover have "getFilePath ''users'' = Inr ''users.json''"
    by (simp add: getFilePath_def allowed_def)
  ultimately show ?thesis
    using assms(1-5)
    by (simp add: signup_def Let_def writeCollection_eq map_of_spread)
qed

lemma signup_handler_conflict:
  assumes "map_of body ''username'' = Some (JStr u)" and "u \<noteq> []"
    and "map_of body ''password'' = Some (JStr p)" and "p \<noteq> []"
    and "readCollection fs ''users'' = Inr (JArr us)"
    and "findIndex (prop_eq coerce ''username'' (Some (JStr u))) us = Inr (Some i)"
  shows "run (signup coerce body gid now) fs
            = (Reply 400 (err_body ''Username already exists''), fs)"
  using assms by (simp add: signup_def Let_def some_elem_def)

lemma signup_handler_missing:
  assumes "\<not> truthy (map_of body ''username'') \<or> \<not> truthy (map_of body ''password'')"
  shows "run (signup coerce body gid now) fs
            = (Reply 400 (err_body ''Missing username or password''), fs)"
  using assms by (auto simp: signup_def Let_def split: option.splits)

section \<open>Concurrent inserts\<close>

lemma interleave_append: "interleave (a @ b) s = interleave b (interleave a s)"
  by (simp add: interleave_def)

lemma interleave_Nil: "interleave [] s = s"
  by (simp add: interleave_def)

lemma interleave_Cons: "interleave (i # is) s = interleave is (sched_step i s)"
  by (simp add: interleave_def)

lemma sched_step_pool:
  assumes "i < length ps"
  shows "sched_step i (fs, ps @ q) =
           (fst (sched_step i (fs, ps)), snd (sched_step i (fs, ps)) @ q)"
    and "length (snd (sched_step i (fs, ps))) = length ps"
  using assms by (auto simp: nth_append list_update_append split: prod.splits)

declare sched_step.simps [simp del]

lemma interleave_pool:
  assumes "\<forall>i\<in>set sched. i < length ps"
  shows "interleave sched (fs, ps @ q) =
           (fst (interleave sched (fs, ps)), snd (interleave sched (fs, ps)) @ q)
         \<and> length (snd (interleave sched (fs, ps))) = length ps"
  using assms
proof (induction sched arbitrary: fs ps)
  case Nil
  show ?case by (simp add: interleave_Nil)
next
  case (Cons i sched)
  obtain fs' ps' where s: "sched_step i (fs, ps) = (fs', ps')" by (cases "sched_step i (fs, ps)")
  from Cons.prems have i: "i < length ps" by simp
  from sched_step_pool(2) [OF i, of fs] s have len: "length ps' = length ps" by simp
  from sched_step_pool(1) [OF i, of fs q] s
  have s': "sched_step i (fs, ps @ q) = (fs', ps' @ q)" by simp
  from Cons.prems len have "\<forall>i\<in>set sched. i < length ps'" by simp
  from Cons.IH [OF this, of fs'] len show ?case
    by (simp add: interleave_Cons s s')
qed

lemma one_by_one_Suc: "one_by_one (Suc n) = one_by_one n @ [n, n]"
  by (simp add: one_by_one_def)

lemma one_by_one_bound: "\<forall>i\<in>set (one_by_one n). i < n"
  by (auto simp: one_by_one_def)

lemma insert_two_steps:
  assumes "readCollection fs c = Inr (JArr ds)"
  shows "interleave [length ps, length ps] (fs, ps @ [post_collection c body gid now]) =
     (fs(c @ ''.json'' := Holds (JArr (ds @ [new_document body gid now]))),
      ps @ [Finish (Reply 201 (new_document body gid now))])"
proof -
  from assms have p: "getFilePath c = Inr (c @ ''.json'')" by (rule readCollection_Inr)
  show ?thesis
    using assms
    by (simp add: interleave_def sched_step.simps post_collection_def Let_def writeCollection_eq p)
qed

lemma inserts_one_by_one_from:
  assumes "readCollection fs c = Inr (JArr ds)"
  shows "\<exists>fs'. interleave (one_by_one (length reqs)) (fs, map (insert_request c) reqs)
           = (fs', map (\<lambda>r. Finish (Reply 201 (stored_document r))) reqs)
         \<and> readCollection fs' c = Inr (JArr (ds @ map stored_document reqs))"
proof (induction reqs rule: rev_induct)
  case Nil
  with assms show ?case by (simp add: one_by_one_def interleave_Nil)
next
  case (snoc r reqs)
  obtain body gid now where r: "r = (body, gid, now)" by (cases r)
  let ?ps = "map (insert_request c) reqs"
  from snoc obtain fs' where
    il: "interleave (one_by_one (length reqs)) (fs, ?ps)
           = (fs', map (\<lambda>r. Finish (Reply 201 (stored_document r))) reqs)"
    and rd: "readCollection fs' c = Inr (JArr (ds @ map stored_document reqs))"
    by blast
  have "\<forall>i\<in>set (one_by_one (length reqs)). i < length ?ps"
    using one_by_one_bound [of "length reqs"] by simp
  from interleave_pool [OF this, of fs "[post_collection c body gid now]"] il
  have first: "interleave (one_by_one (length reqs)) (fs, ?ps @ [post_collection c body gid now])
      = (fs', map (\<lambda>r. Finish (Reply 201 (stored_document r))) reqs @ [post_collection c body gid now])"
    by simp
  from rd have p: "getFilePath c = Inr (c @ ''.json'')" by (rule readCollection_Inr)
  let ?fs = "fs'(c @ ''.json'' := Holds (JArr ((ds @ map stored_document reqs) @ [new_document body gid now])))"
  from insert_two_steps [OF rd, of "map (\<lambda>r. Finish (Reply 201 (stored_document r))) reqs" body gid now]
  have last: "interleave [length reqs, length reqs]
      (fs', map (\<lambda>r. Finish (Reply 201 (stored_document r))) reqs @ [post_collection c body gid now])
     = (?fs, map (\<lambda>r. Finish (Reply 201 (stored_document r))) reqs
              @ [Finish (Reply 201 (new_document body gid now))])"
    by simp
  have "interleave (one_by_one (length (reqs @ [r]))) (fs, map (insert_request c) (reqs @ [r]))
      = (?fs, map (\<lambda>r. Finish (Reply 201 (stored_document r))) (reqs @ [r]))"
    by (simp add: one_by_one_Suc interleave_append r first last)
  moreover have "readCollection ?fs c = Inr (JArr (ds @ map stored_document (reqs @ [r])))"
    using p by (simp add: readCollection_def r)
  ultimately show ?case by blast
qed

text \<open>
  C1 (as amended). When the insert requests against a collection whose file does not exist
  yet are served one after the other, each request's read and write before the next
  request's read, every request is answered 201 with its document, and the collection then
  holds exactly these documents, as many as there were requests.
\<close>

theorem inserts_one_by_one:
  assumes "collection \<in> set allowed" and "fs (collection @ ''.json'') = Absent"
  shows "\<exists>fs' docs.
           interleave (one_by_one (length reqs)) (fs, map (insert_request collection) reqs)
             = (fs', map (\<lambda>d. Finish (Reply 201 d)) docs)
         \<and> readCollection fs' collection = Inr (JArr docs)
         \<and> docs = map stored_document reqs
         \<and> length docs = length reqs"
proof -
  from assms have "readCollection fs collection = Inr (JArr [])"
    by (simp add: readCollection_def getFilePath_allowed)
  from inserts_one_by_one_from [OF this, of reqs] show ?thesis by (simp add: comp_def)
qed

theorem inserts_one_by_one_witness:
  "''posts'' \<in> set allowed \<and> no_files ''posts.json'' = Absent
   \<and> one_by_one (length two_inserts) = [0, 0, 1, 1]
   \<and> readCollection
       (fst (interleave [0, 0, 1, 1] (no_files, map (insert_request ''posts'') two_inserts)))
       ''posts''
     = Inr (JArr
         [JObj [(''n'', JNum 1), (''id'', JStr ''g1''), (''createdAt'', JStr ''t1'')],
          JObj [(''n'', JNum 2), (''id'', JStr ''g2''), (''createdAt'', JStr ''t2'')]])"
  using inserts_one_by_one [of "''posts''" no_files two_inserts]
  by (simp add: two_inserts_def one_by_one_def interleave_def sched_step.simps
      post_collection_def new_document_def eval_defs Let_def)

text \<open>
  C1 as stated fails: two inserts into the empty collection \<open>posts\<close> whose reads both
  happen before either write are both answered 201, and the collection holds one document.
\<close>

theorem interleaved_insert_lost:
  "interleave [0, 1, 0, 1] (no_files, map (insert_request ''posts'') two_inserts)
     = (no_files(''posts.json'' := Holds (JArr
          [JObj [(''n'', JNum 2), (''id'', JStr ''g2''), (''createdAt'', JStr ''t2'')]])),
        [Finish (Reply 201
           (JObj [(''n'', JNum 1), (''id'', JStr ''g1''), (''createdAt'', JStr ''t1'')])),
         Finish (Reply 201
           (JObj [(''n'', JNum 2), (''id'', JStr ''g2''), (''createdAt'', JStr ''t2'')]))])"
  by (simp add: two_inserts_def interleave_def sched_step.simps post_collection_def
      new_document_def eval_defs Let_def)

section \<open>Toggle follow\<close>























text \<open>
  A user element that is an array: a request without ids selects it as follower and as
  following, the answer is 200, and the file is written as it was.
\<close>

lemma toggle_follow_array_element:
  "run (toggle_follow no_coercion [])
     (no_files(''users.json'' := Holds (JArr [JArr [JNum 1, JNum 2]])))
   = (Reply 200 (JObj [(''follower'', JArr [JNum 1, JNum 2]),
                       (''following'', JArr [JNum 1, JNum 2])]),
      no_files(''users.json'' := Holds (JArr [JArr [JNum 1, JNum 2]])))"
  by (simp add: toggle_follow_def toggle_def toggle_statements_def eval_defs Let_def)

end
